theory Spec2Isabelle
  imports Main "HOL-Library.Sublist" "HOL-Library.AList"
begin

section \<open>Shared vocabulary\<close>

text \<open>
  A Go \<open>error\<close> value is an opaque message.  A Go function returning \<open>(T, error)\<close> whose
  first component is read even when the error is set is a pair \<open>T \<times> error option\<close>; one
  whose caller returns at once on error is a sum \<open>error + T\<close>.
\<close>

datatype error = Error string

subsection \<open>The functions of package \<open>strings\<close> and \<open>fmt\<close> that the code calls\<close>

text \<open>\<open>strings.Contains(s, substr)\<close>: \<open>substr\<close> occurs in \<open>s\<close> as a contiguous block.\<close>

fun Contains :: "string \<Rightarrow> string \<Rightarrow> bool" where
  "Contains [] substr = (substr = [])"
| "Contains (c # s) substr = (prefix substr (c # s) \<or> Contains s substr)"

text \<open>
  \<open>strings.ReplaceAll(s, old, new)\<close>: the non-overlapping occurrences of \<open>old\<close> are
  replaced from left to right.  (For an empty \<open>old\<close> Go inserts \<open>new\<close> before every rune
  and at the end; bytes stand for runes in that branch, which the program never takes.)
\<close>

function ReplaceAll :: "string \<Rightarrow> string \<Rightarrow> string \<Rightarrow> string" where
  "ReplaceAll s old new =
     (if old = [] then concat (map (\<lambda>c. new @ [c]) s) @ new
      else if s = [] then []
      else if prefix old s then new @ ReplaceAll (drop (length old) s) old new
      else hd s # ReplaceAll (tl s) old new)"
  by pat_completeness auto
termination
  by (relation "measure (\<lambda>(s, old, new). length s)") auto

declare ReplaceAll.simps [simp del]

text \<open>\<open>strings.Join([]string{a, b}, "/")\<close>.\<close>

definition Join2 :: "string \<Rightarrow> string \<Rightarrow> string" where
  "Join2 a b = a @ ''/'' @ b"

section \<open>Package \<open>registry\<close>\<close>

record Registry =
  Name :: string
  URL :: string
  Insecure :: bool
  PlainHTTP :: bool

text \<open>
  The library types the package handles.  A \<open>remote.Repository\<close> is the connection to one
  repository: the reference it was created from, the client installed on it (identified
  by the credential store it wraps; \<open>None\<close> is the library default) and its transport flag.
\<close>

type_synonym credStore = nat

record Repository =
  Reference :: string
  Client :: "credStore option"
  PlainHTTP :: bool

record Descriptor =
  MediaType :: string
  Digest :: string
  Size :: int

record Platform =
  Architecture :: string
  OS :: string
  OSVersion :: string
  OSFeatures :: "string list"
  Variant :: string

record CopyOptions =
  TargetPlatform :: "Platform option"

definition DefaultCopyOptions :: CopyOptions where
  "DefaultCopyOptions = \<lparr>TargetPlatform = None\<rparr>"

text \<open>
  What lies outside the repository (the credential store of the operating system, the
  oras client and the registries behind it, the platform parser) is a parameter of the
  model: one outcome per call, as a function of the call's arguments.
\<close>

record regenv =
  NewStoreFromDocker :: "error + credStore"
  NewRepository :: "string \<Rightarrow> error + Repository"
  ParsePlatform :: "string \<Rightarrow> error + Platform"
  oras_Copy :: "Repository \<Rightarrow> string \<Rightarrow> Repository \<Rightarrow> string \<Rightarrow> CopyOptions \<Rightarrow> error + Descriptor"
  oras_Fetch :: "Repository \<Rightarrow> string \<Rightarrow> error option"
  Resolve :: "Repository \<Rightarrow> string \<Rightarrow> error + Descriptor"

subsection \<open>\<open>Registry.Push\<close>\<close>

text \<open>
  \<open>Push_connect\<close> is the body of \<open>Push\<close> up to the call of \<open>oras.Copy\<close>: it yields the two
  connections and the copy options that the call receives, or the error of the step
  that failed.  \<open>Push\<close> then hands them to \<open>oras.Copy\<close> with the tag on both sides.
\<close>

definition Push_connect ::
  "regenv \<Rightarrow> Registry \<Rightarrow> string \<Rightarrow> string \<Rightarrow> string option
     \<Rightarrow> error + (Repository \<times> Repository \<times> CopyOptions)" where
  "Push_connect env r sourceURL name arch =
     (case NewStoreFromDocker env of
        Inl err \<Rightarrow> Inl err
      | Inr credStore \<Rightarrow>
          (case NewRepository env (Join2 sourceURL name) of
             Inl err \<Rightarrow> Inl err
           | Inr source0 \<Rightarrow>
               let source = source0\<lparr>Client := Some credStore,
                      Repository.PlainHTTP :=
                        (Contains sourceURL ''localhost'' \<or> Contains sourceURL ''0.0.0.0'')\<rparr>
               in (case NewRepository env (Join2 (URL r) name) of
                     Inl err \<Rightarrow> Inl err
                   | Inr target0 \<Rightarrow>
                       let target = target0\<lparr>Client := Some credStore,
                              Repository.PlainHTTP := Registry.PlainHTTP r\<rparr>
                       in (case arch of
                             None \<Rightarrow> Inr (source, target, DefaultCopyOptions)
                           | Some a \<Rightarrow>
                               (case ParsePlatform env a of
                                  Inl err \<Rightarrow> Inl err
                                | Inr v \<Rightarrow>
                                    Inr (source, target,
                                         DefaultCopyOptions\<lparr>TargetPlatform := Some v\<rparr>))))))"

definition Push ::
  "regenv \<Rightarrow> Registry \<Rightarrow> string \<Rightarrow> string \<Rightarrow> string \<Rightarrow> string option \<Rightarrow> error + Descriptor" where
  "Push env r sourceURL name tag arch =
     (case Push_connect env r sourceURL name arch of
        Inl err \<Rightarrow> Inl err
      | Inr (source, target, opts) \<Rightarrow> oras_Copy env source tag target tag opts)"

subsection \<open>\<open>Registry.Fetch\<close>\<close>



subsection \<open>\<open>Exist\<close>, \<open>Registry.Exist\<close> and \<open>Exists\<close>\<close>

text \<open>The pair is Go's \<open>(bool, error)\<close>; \<open>None\<close> is the \<open>nil\<close> error.\<close>

definition Exist :: "regenv \<Rightarrow> string \<Rightarrow> string \<Rightarrow> bool \<Rightarrow> bool \<times> error option" where
  "Exist env reference tag plainHTTP =
     (case NewRepository env reference of
        Inl err \<Rightarrow> (False, Some err)
      | Inr repo0 \<Rightarrow>
          let repo = repo0\<lparr>Repository.PlainHTTP := plainHTTP\<rparr>
          in (case NewStoreFromDocker env of
                Inl err \<Rightarrow> (False, Some err)
              | Inr credStore \<Rightarrow>
                  let err = oras_Fetch env (repo\<lparr>Client := Some credStore\<rparr>) tag
                  in (err = None, err)))"

definition Registry_Exist :: "regenv \<Rightarrow> Registry \<Rightarrow> string \<Rightarrow> string \<Rightarrow> bool \<times> error option" where
  "Registry_Exist env r name tag = Exist env (Join2 (URL r) name) tag (Registry.PlainHTTP r)"

text \<open>The closure that \<open>Exists\<close> applies to each registry.\<close>

definition exists_closure :: "regenv \<Rightarrow> string \<Rightarrow> string \<Rightarrow> Registry \<Rightarrow> bool" where
  "exists_closure env ref tag r =
     (case Registry_Exist env r ref tag of
        (exists, err) \<Rightarrow> if err \<noteq> None then False else exists)"

text \<open>The loop of \<open>Exists\<close>: one assignment \<open>m[r.URL] = exists\<close> per registry, in order.\<close>

definition Exists :: "regenv \<Rightarrow> string \<Rightarrow> string \<Rightarrow> Registry list \<Rightarrow> (string \<rightharpoonup> bool)" where
  "Exists env ref tag registries =
     foldl (\<lambda>m r. m(URL r \<mapsto> exists_closure env ref tag r)) Map.empty registries"

section \<open>Package \<open>internal\<close>: the image stage of \<open>Program\<close>\<close>

text \<open>
  The model covers \<open>Program\<close> from its second \<open>switch\<close> to its final \<open>return nil\<close>: the
  images \<open>imgs\<close> selected for import are either scanned, classified, patched, pushed and
  rescanned (import and Copacetic enabled), or pushed as they are (import only), or left
  alone.

  Modelled from the spec: the declaration of \<open>registry.Image\<close> is not among the sources.
  Its fields are those the source reads or writes (\<open>Registry\<close>, \<open>Tag\<close>, \<open>Digest\<close>,
  \<open>UseDigest\<close>, \<open>Patch\<close>) and the repository path of the spec's data model; \<open>Patch\<close> is the
  nullable boolean (\<open>None\<close> unset, \<open>Some False\<close> excluded, \<open>Some True\<close> included).
\<close>

record Image =
  Registry :: string
  Repository :: string
  Tag :: string
  Digest :: string
  UseDigest :: bool
  Patch :: "bool option"

text \<open>
  \<open>&i\<close> inside \<open>for _, i := range imgs\<close>: every iteration has a variable of its own (the
  loop semantics of Go 1.22, on which the source's "convert to pointer array" loop
  relies), so the pointer taken in iteration \<open>k\<close> is a fresh address, written \<open>k\<close>, holding
  a copy of \<open>imgs[k]\<close>.  Nothing in \<open>Program\<close> reads a pointee after handing the pointer
  out, so the pointer carries the copy along.
\<close>

type_synonym Image_ptr = "nat \<times> Image"

text \<open>A map keyed by such pointers: one entry per address, \<open>m[p] = v\<close> is \<open>AList.update\<close>.\<close>

type_synonym path_map = "(nat \<times> string) list"

text \<open>The scanner's report, as far as \<open>Program\<close> looks into it.\<close>

record Report =
  Metadata_OS :: "string option"
  Results :: "string list"

text \<open>
  The fields of \<open>importConfig.Import\<close> that the stage reads.  Modelled from the spec:
  \<open>Tars_Clean\<close>, the output-cleanup flag of the archive folder, is never read by the
  source; it is here so that statements about it can be written.
\<close>

record Config =
  Import_Enabled :: bool
  Copacetic_Enabled :: bool
  Cosign_Enabled :: bool
  Cosign_KeyRefPass :: "string option"
  Reports_Folder :: string
  Reports_Clean :: bool
  Tars_Folder :: string
  Tars_Clean :: bool

text \<open>
  The collaborators of the stage, none of them in the sources: the methods of \<open>Image\<close>,
  the scanner and the two predicates on its report, the importer, the patcher and the
  signer, and the file system.  Each is one outcome per call, as a function of the call's
  arguments.
\<close>

record world =
  Image_String :: "Image \<Rightarrow> string \<times> error option"
  Image_ImageName :: "Image \<Rightarrow> string \<times> error option"
  Scan :: "string \<Rightarrow> error + Report"
  SupportedOS :: "string option \<Rightarrow> bool"
  ContainsOsPkgs :: "string list \<Rightarrow> bool"
  MarshalIndent :: "Report \<Rightarrow> error + string"
  WriteFile :: "string \<Rightarrow> string \<Rightarrow> error option"
  RemoveAll :: "string \<Rightarrow> error option"
  filepath_Join :: "string \<Rightarrow> string \<Rightarrow> string"
  ImportOption_Run :: "Image_ptr list \<Rightarrow> error option"
  PatchOption_Run :: "Image_ptr list \<Rightarrow> path_map \<Rightarrow> path_map \<Rightarrow> error option"
  SignOption_Run :: "Image_ptr list \<Rightarrow> error option"

text \<open>What the stage does to the outside, in the order it does it.\<close>

datatype event =
    Scan_call string
  | WriteFile_call string string
  | ImportOption_Run_call "Image_ptr list"
  | PatchOption_Run_call "Image_ptr list" path_map path_map
  | SignOption_Run_call "Image_ptr list"
  | RemoveAll_call string

datatype outcome = Return "error option" | Panic

record scan_state =
  patch :: "Image_ptr list"
  push :: "Image_ptr list"
  trace :: "event list"

subsection \<open>The classification loop\<close>

definition prescan_fileName :: "world \<Rightarrow> Config \<Rightarrow> Image \<Rightarrow> string" where
  "prescan_fileName w cfg i =
     (let name = fst (Image_ImageName w i);
          fileName = name @ '':'' @ Tag i @ ''.json''
      in filepath_Join w (Reports_Folder cfg) (''prescan-'' @ ReplaceAll fileName ''/'' ''-''))"

text \<open>One iteration: \<open>Some err\<close> is \<open>return err\<close>, \<open>None\<close> goes on to the next image.\<close>

definition classify_image ::
  "world \<Rightarrow> Config \<Rightarrow> nat \<Rightarrow> Image \<Rightarrow> scan_state \<Rightarrow> error option \<times> scan_state" where
  "classify_image w cfg k i s =
     (if Patch i = Some False then
        (case Image_String w i of
           (ref, Some err) \<Rightarrow> (Some err, s)
         | (ref, None) \<Rightarrow> (None, s\<lparr>push := push s @ [(k, i)]\<rparr>))
      else
        (case Image_String w i of
           (ref, Some err) \<Rightarrow> (Some err, s)
         | (ref, None) \<Rightarrow>
             (case Scan w ref of
                Inl err \<Rightarrow> (Some err, s\<lparr>trace := trace s @ [Scan_call ref]\<rparr>)
              | Inr r \<Rightarrow>
                  let s1 = s\<lparr>trace := trace s @ [Scan_call ref]\<rparr>;
                      s2 = (if SupportedOS w (Metadata_OS r) then
                              (if ContainsOsPkgs w (Results r)
                               then s1\<lparr>patch := patch s1 @ [(k, i)]\<rparr>
                               else s1\<lparr>push := push s1 @ [(k, i)]\<rparr>)
                            else s1\<lparr>push := push s1 @ [(k, i)]\<rparr>);
                      fileName = prescan_fileName w cfg i
                  in (case MarshalIndent w r of
                        Inl err \<Rightarrow> (Some err, s2)
                      | Inr b \<Rightarrow>
                          (WriteFile w fileName b,
                           s2\<lparr>trace := trace s2 @ [WriteFile_call fileName b]\<rparr>)))))"

fun classify ::
  "world \<Rightarrow> Config \<Rightarrow> nat \<Rightarrow> Image list \<Rightarrow> scan_state \<Rightarrow> error option \<times> scan_state" where
  "classify w cfg k [] s = (None, s)"
| "classify w cfg k (i # imgs) s =
     (case classify_image w cfg k i s of
        (Some err, s') \<Rightarrow> (Some err, s')
      | (None, s') \<Rightarrow> classify w cfg (Suc k) imgs s')"

definition init_state :: scan_state where
  "init_state = \<lparr>patch = [], push = [], trace = []\<rparr>"

subsection \<open>The artifact paths\<close>

definition reportFilePath :: "world \<Rightarrow> Config \<Rightarrow> Image \<Rightarrow> string" where
  "reportFilePath w cfg i =
     (let name = fst (Image_ImageName w i);
          fileName = ''prescan-'' @ name @ '':'' @ Tag i @ ''.json''
      in filepath_Join w (Reports_Folder cfg) (ReplaceAll fileName ''/'' ''-''))"

definition reportPostFilePath :: "world \<Rightarrow> Config \<Rightarrow> Image \<Rightarrow> string" where
  "reportPostFilePath w cfg i =
     (let name = fst (Image_ImageName w i);
          fileName = ''postscan-'' @ name @ '':'' @ Tag i @ ''.json''
      in filepath_Join w (Reports_Folder cfg) (ReplaceAll fileName ''/'' ''-''))"

definition outFilePath :: "world \<Rightarrow> Config \<Rightarrow> Image \<Rightarrow> string" where
  "outFilePath w cfg i =
     (let name = fst (Image_ImageName w i);
          out = name @ '':'' @ Tag i @ ''.tar''
      in filepath_Join w (Tars_Folder cfg) (ReplaceAll out ''/'' ''-''))"

text \<open>The loop over \<open>append(patch, push...)\<close> that fills the three maps.\<close>

fun artifact_paths ::
  "world \<Rightarrow> Config \<Rightarrow> Image_ptr list \<Rightarrow> path_map \<times> path_map \<times> path_map
     \<Rightarrow> path_map \<times> path_map \<times> path_map" where
  "artifact_paths w cfg [] m = m"
| "artifact_paths w cfg (p # ps) (reportFilePaths, reportPostFilePaths, outFilePaths) =
     artifact_paths w cfg ps
       (AList.update (fst p) (reportFilePath w cfg (snd p)) reportFilePaths,
        AList.update (fst p) (reportPostFilePath w cfg (snd p)) reportPostFilePaths,
        AList.update (fst p) (outFilePath w cfg (snd p)) outFilePaths)"

subsection \<open>The deferred cleanup\<close>

text \<open>
  Both conditions read \<open>Output.Reports.Clean\<close>, as in the source.  Go leaves the order in
  which a map is ranged over open; the model takes the order of insertion.  The results of
  \<open>os.RemoveAll\<close> are discarded.
\<close>

definition cleanup :: "Config \<Rightarrow> path_map \<Rightarrow> path_map \<Rightarrow> path_map \<Rightarrow> event list" where
  "cleanup cfg reportFilePaths reportPostFilePaths outFilePaths =
     (if Reports_Clean cfg
      then map (\<lambda>kv. RemoveAll_call (snd kv)) reportFilePaths
           @ map (\<lambda>kv. RemoveAll_call (snd kv)) reportPostFilePaths
      else [])
     @ (if Reports_Clean cfg
        then map (\<lambda>kv. RemoveAll_call (snd kv)) outFilePaths
        else [])"

subsection \<open>The scan after patching\<close>

definition rescan_image ::
  "world \<Rightarrow> string \<Rightarrow> string \<Rightarrow> Image \<Rightarrow> event list \<Rightarrow> error option \<times> event list" where
  "rescan_image w out pre i tr =
     (let ref = fst (Image_String w i);
          tr1 = tr @ [Scan_call ref]
      in (case Scan w ref of
            Inl err \<Rightarrow> (Some err, tr1)
          | Inr r \<Rightarrow>
              let name = fst (Image_ImageName w i);
                  fileName = name @ '':'' @ Tag i @ ''.json'';
                  fileName = filepath_Join w out (pre @ ReplaceAll fileName ''/'' ''-'')
              in (case MarshalIndent w r of
                    Inl err \<Rightarrow> (Some err, tr1)
                  | Inr b \<Rightarrow> (WriteFile w fileName b, tr1 @ [WriteFile_call fileName b]))))"

fun rescan ::
  "world \<Rightarrow> string \<Rightarrow> string \<Rightarrow> Image list \<Rightarrow> event list \<Rightarrow> error option \<times> event list" where
  "rescan w out pre [] tr = (None, tr)"
| "rescan w out pre (i # imgs) tr =
     (case rescan_image w out pre i tr of
        (Some err, tr') \<Rightarrow> (Some err, tr')
      | (None, tr') \<Rightarrow> rescan w out pre imgs tr')"

subsection \<open>The stages\<close>

text \<open>
  Signing: building the option value dereferences \<open>Cosign.KeyRefPass\<close>, which panics on a
  nil pointer before the signer is called.
\<close>

definition sign_stage :: "world \<Rightarrow> Config \<Rightarrow> Image_ptr list \<Rightarrow> event list \<Rightarrow> outcome \<times> event list" where
  "sign_stage w cfg ptrs tr =
     (if Cosign_Enabled cfg then
        (case Cosign_KeyRefPass cfg of
           None \<Rightarrow> (Panic, tr)
         | Some pass \<Rightarrow> (Return (SignOption_Run w ptrs), tr @ [SignOption_Run_call ptrs]))
      else (Return None, tr))"

text \<open>The statements of the Copacetic case that follow the \<open>defer\<close>.\<close>

definition copacetic_stages ::
  "world \<Rightarrow> Config \<Rightarrow> Image list \<Rightarrow> scan_state \<Rightarrow> path_map \<Rightarrow> path_map \<Rightarrow> outcome \<times> event list" where
  "copacetic_stages w cfg imgs s reportFilePaths outFilePaths =
     (let tr1 = trace s @ [ImportOption_Run_call (push s)]
      in (case ImportOption_Run w (push s) of
            Some err \<Rightarrow> (Return (Some err), tr1)
          | None \<Rightarrow>
              let tr2 = tr1 @ [PatchOption_Run_call (patch s) reportFilePaths outFilePaths]
              in (case PatchOption_Run w (patch s) reportFilePaths outFilePaths of
                    Some err \<Rightarrow> (Return (Some err), tr2)
                  | None \<Rightarrow>
                      (case rescan w (Reports_Folder cfg) ''postscan-'' imgs tr2 of
                         (Some err, tr3) \<Rightarrow> (Return (Some err), tr3)
                       | (None, tr3) \<Rightarrow> sign_stage w cfg (patch s @ push s) tr3))))"

text \<open>
  The switch.  In the Copacetic case the cleanup is deferred once the three maps are
  filled, so it runs when the function leaves by any later path, and on no earlier one.
\<close>

definition Program_images :: "world \<Rightarrow> Config \<Rightarrow> Image list \<Rightarrow> outcome \<times> event list" where
  "Program_images w cfg imgs =
     (if Import_Enabled cfg \<and> Copacetic_Enabled cfg then
        (case classify w cfg 0 imgs init_state of
           (Some err, s) \<Rightarrow> (Return (Some err), trace s)
         | (None, s) \<Rightarrow>
             (case artifact_paths w cfg (patch s @ push s) ([], [], []) of
                (reportFilePaths, reportPostFilePaths, outFilePaths) \<Rightarrow>
                  (case copacetic_stages w cfg imgs s reportFilePaths outFilePaths of
                     (res, tr) \<Rightarrow>
                       (res, tr @ cleanup cfg reportFilePaths reportPostFilePaths outFilePaths))))
      else if Import_Enabled cfg then
        (let imgPs = enumerate 0 imgs;
             tr = [ImportOption_Run_call imgPs]
         in (case ImportOption_Run w imgPs of
               Some err \<Rightarrow> (Return (Some err), tr)
             | None \<Rightarrow> sign_stage w cfg imgPs tr))
      else (Return None, []))"

subsection \<open>Reading a run\<close>

text \<open>
  The paths the stage called \<open>os.WriteFile\<close> on, and the paths it asked to remove, in
  order.  Only the last write of a run can have failed: the stage returns its error.
\<close>

fun written :: "event list \<Rightarrow> string list" where
  "written [] = []"
| "written (WriteFile_call p b # es) = p # written es"
| "written (e # es) = written es"

fun removed :: "event list \<Rightarrow> string list" where
  "removed [] = []"
| "removed (RemoveAll_call p # es) = p # removed es"
| "removed (e # es) = removed es"

fun scanned :: "event list \<Rightarrow> string list" where
  "scanned [] = []"
| "scanned (Scan_call ref # es) = ref # scanned es"
| "scanned (e # es) = scanned es"

text \<open>The image collections the patcher was run on.\<close>

fun patched :: "event list \<Rightarrow> Image_ptr list" where
  "patched [] = []"
| "patched (PatchOption_Run_call ps a b # es) = ps @ patched es"
| "patched (e # es) = patched es"

text \<open>
  The decision the loop took for the image at address \<open>k\<close>: which of the two collections
  holds it; \<open>None\<close> when neither or both do.
\<close>

datatype decision = PushOnly | PatchThenPush

definition decision_of :: "scan_state \<Rightarrow> nat \<Rightarrow> decision option" where
  "decision_of s k =
     (if k \<in> fst ` set (patch s) then
        (if k \<in> fst ` set (push s) then None else Some PatchThenPush)
      else if k \<in> fst ` set (push s) then Some PushOnly
      else None)"

text \<open>
  What the loop tests for an image, read off the world: not excluded, and scanned with a
  supported OS and OS-package findings.
\<close>

definition needs_patch :: "world \<Rightarrow> Image \<Rightarrow> bool" where
  "needs_patch w i =
     (Patch i \<noteq> Some False \<and>
      (case Scan w (fst (Image_String w i)) of
         Inl err \<Rightarrow> False
       | Inr r \<Rightarrow> SupportedOS w (Metadata_OS r) \<and> ContainsOsPkgs w (Results r)))"

text \<open>The classification table of the spec, row by row.\<close>

definition table_outcome :: "bool option \<Rightarrow> bool \<Rightarrow> bool \<Rightarrow> decision" where
  "table_outcome p os_supported has_os_pkgs =
     (if p = Some False then PushOnly
      else if os_supported = False then PushOnly
      else if has_os_pkgs = False then PushOnly
      else PatchThenPush)"

text \<open>The sanitised form of a file name: every \<open>/\<close> has become \<open>-\<close>.\<close>

definition sanitize :: "string \<Rightarrow> string" where
  "sanitize s = map (\<lambda>c. if c = CHR ''/'' then CHR ''-'' else c) s"

section \<open>Concrete inputs\<close>

text \<open>
  Two registries configured with the same URL, the first over TLS and the second over
  plain HTTP, in a world whose endpoint answers plain HTTP only.
\<close>

definition reg_tls :: Registry where
  "reg_tls = \<lparr>Name = ''a'', URL = ''reg.local:5000'', Insecure = False, PlainHTTP = False\<rparr>"

definition reg_plain :: Registry where
  "reg_plain = \<lparr>Name = ''b'', URL = ''reg.local:5000'', Insecure = False, PlainHTTP = True\<rparr>"

definition reg_other :: Registry where
  "reg_other = \<lparr>Name = ''c'', URL = ''other.example'', Insecure = False, PlainHTTP = False\<rparr>"

definition env_plain_only :: regenv where
  "env_plain_only =
     \<lparr>NewStoreFromDocker = Inr 0,
      NewRepository = (\<lambda>ref. Inr \<lparr>Reference = ref, Client = None, PlainHTTP = False\<rparr>),
      ParsePlatform = (\<lambda>a. Inl (Error ''bad platform'')),
      oras_Copy = (\<lambda>src t dst t' opts.
         Inr \<lparr>MediaType = ''manifest'', Descriptor.Digest = ''sha256:0'', Size = 1\<rparr>),
      oras_Fetch = (\<lambda>repo t.
         if Repository.PlainHTTP repo then None else Some (Error ''connection refused'')),
      Resolve = (\<lambda>repo t.
         if Repository.PlainHTTP repo
         then Inr \<lparr>MediaType = ''manifest'', Descriptor.Digest = ''sha256:0'', Size = 1\<rparr>
         else Inl (Error ''connection refused''))\<rparr>"


text \<open>
  Four images and a world: \<open>library/app:1.0\<close> is Debian with an OS-package finding,
  \<open>tools/tool:2.3\<close> is Alpine without findings, \<open>library/kept:3\<close> is excluded from patching,
  and the scanner fails on \<open>library/bad:0\<close>.
\<close>

definition img_app :: Image where
  "img_app = \<lparr>Registry = ''docker.io'', Repository = ''library/app'', Tag = ''1.0'',
              Digest = [], UseDigest = False, Patch = None\<rparr>"

definition img_tool :: Image where
  "img_tool = \<lparr>Registry = ''docker.io'', Repository = ''tools/tool'', Tag = ''2.3'',
               Digest = [], UseDigest = False, Patch = Some True\<rparr>"

definition img_kept :: Image where
  "img_kept = \<lparr>Registry = ''docker.io'', Repository = ''library/kept'', Tag = ''3'',
               Digest = [], UseDigest = False, Patch = Some False\<rparr>"

definition img_bad :: Image where
  "img_bad = \<lparr>Registry = ''docker.io'', Repository = ''library/bad'', Tag = ''0'',
              Digest = [], UseDigest = False, Patch = None\<rparr>"

definition world0 :: world where
  "world0 =
     \<lparr>Image_String = (\<lambda>i. (Repository i @ '':'' @ Tag i, None)),
      Image_ImageName = (\<lambda>i. (Repository i, None)),
      Scan = (\<lambda>ref.
         if ref = ''library/bad:0'' then Inl (Error ''scan failed'')
         else if ref = ''library/app:1.0''
           then Inr \<lparr>Metadata_OS = Some ''debian'', Results = [''os-pkgs'']\<rparr>
         else Inr \<lparr>Metadata_OS = Some ''alpine'', Results = []\<rparr>),
      SupportedOS = (\<lambda>os. os \<noteq> None),
      ContainsOsPkgs = (\<lambda>rs. rs \<noteq> []),
      MarshalIndent = (\<lambda>r. Inr ''{}''),
      WriteFile = (\<lambda>p b. None),
      RemoveAll = (\<lambda>p. None),
      filepath_Join = (\<lambda>a b. a @ ''/'' @ b),
      ImportOption_Run = (\<lambda>ps. None),
      PatchOption_Run = (\<lambda>ps a b. None),
      SignOption_Run = (\<lambda>ps. None)\<rparr>"

definition cfg0 :: Config where
  "cfg0 = \<lparr>Import_Enabled = True, Copacetic_Enabled = True, Cosign_Enabled = False,
           Cosign_KeyRefPass = None, Reports_Folder = ''reports'', Reports_Clean = True,
           Tars_Folder = ''tars'', Tars_Clean = True\<rparr>"

text \<open>A batch of three, the state its classification ends in, and a world whose patcher fails.\<close>

definition imgs3 :: "Image list" where
  "imgs3 = [img_app, img_tool, img_kept]"

definition state3 :: scan_state where
  "state3 =
     \<lparr>patch = [(0, img_app)],
      push = [(1, img_tool), (2, img_kept)],
      trace = [Scan_call ''library/app:1.0'',
               WriteFile_call ''reports/prescan-library-app:1.0.json'' ''{}'',
               Scan_call ''tools/tool:2.3'',
               WriteFile_call ''reports/prescan-tools-tool:2.3.json'' ''{}'']\<rparr>"

definition world_patch_fails :: world where
  "world_patch_fails = world0\<lparr>PatchOption_Run := (\<lambda>ps a b. Some (Error ''patch failed''))\<rparr>"

text \<open>A batch whose second scan fails.\<close>

definition imgs_fail :: "Image list" where
  "imgs_fail = [img_app, img_bad]"


section \<open>Library facts\<close>

lemma Contains_sublist: "Contains s substr \<longleftrightarrow> sublist substr s"
  by (induction s) (auto simp: sublist_Cons_right)

lemma ReplaceAll_slash: "ReplaceAll s ''/'' ''-'' = map (\<lambda>c. if c = CHR ''/'' then CHR ''-'' else c) s"
proof (induction s)
  case Nil
  show ?case by (subst ReplaceAll.simps) simp
next
  case (Cons c s)
  show ?case
  proof (cases "c = CHR ''/''")
    case True
    then show ?thesis using Cons by (subst ReplaceAll.simps) simp
  next
    case False
    then show ?thesis using Cons by (subst ReplaceAll.simps) simp
  qed
qed

section \<open>The existence probe\<close>

lemma Exist_cases:
  "Exist env reference tag plainHTTP = (True, None) \<or>
   (\<exists>e. Exist env reference tag plainHTTP = (False, Some e))"
  by (auto simp: Exist_def Let_def split: sum.splits)

text \<open>
  C4.  \<open>Exist\<close> attempts a metadata fetch: once the repository handle and the credential
  store are there, it calls \<open>oras.Fetch\<close> on the reference with the given transport flag
  and the tag, and returns \<open>true\<close> exactly when that fetch succeeds, together with the
  fetch's error.  When creating the handle or the store fails it returns \<open>false\<close> and that
  error.  So on every return path the boolean is true exactly when the returned error is
  nil, the result being \<open>(true, nil)\<close> or \<open>(false, e)\<close>, and the boolean alone does not
  tell one error from another.  \<open>Registry.Exist\<close> is \<open>Exist\<close> on the reference \<open>URL/name\<close>
  with the registry's transport flag.
\<close>

theorem Exist_true_iff_fetch_succeeds:
  "(fst (Exist env reference tag plainHTTP) \<longleftrightarrow> snd (Exist env reference tag plainHTTP) = None)
   \<and> (Exist env reference tag plainHTTP = (True, None)
        \<or> (\<exists>e. Exist env reference tag plainHTTP = (False, Some e)))
   \<and> (\<forall>repo0 credStore.
         NewRepository env reference = Inr repo0 \<longrightarrow> NewStoreFromDocker env = Inr credStore \<longrightarrow>
         Exist env reference tag plainHTTP =
           (oras_Fetch env
              (repo0\<lparr>Repository.PlainHTTP := plainHTTP, Client := Some credStore\<rparr>) tag = None,
            oras_Fetch env
              (repo0\<lparr>Repository.PlainHTTP := plainHTTP, Client := Some credStore\<rparr>) tag))
   \<and> (\<forall>e. NewRepository env reference = Inl e \<longrightarrow>
         Exist env reference tag plainHTTP = (False, Some e))
   \<and> (\<forall>repo0 e.
         NewRepository env reference = Inr repo0 \<longrightarrow> NewStoreFromDocker env = Inl e \<longrightarrow>
         Exist env reference tag plainHTTP = (False, Some e))
   \<and> Registry_Exist env r name tag = Exist env (URL r @ ''/'' @ name) tag (Registry.PlainHTTP r)
   \<and> (fst (Registry_Exist env r name tag) \<longleftrightarrow> snd (Registry_Exist env r name tag) = None)"
proof -
  have a: "\<And>ref p. fst (Exist env ref tag p) \<longleftrightarrow> snd (Exist env ref tag p) = None"
    using Exist_cases by (metis fst_conv snd_conv option.distinct(1))
  have b: "\<forall>repo0 credStore.
         NewRepository env reference = Inr repo0 \<longrightarrow> NewStoreFromDocker env = Inr credStore \<longrightarrow>
         Exist env reference tag plainHTTP =
           (oras_Fetch env
              (repo0\<lparr>Repository.PlainHTTP := plainHTTP, Client := Some credStore\<rparr>) tag = None,
            oras_Fetch env
              (repo0\<lparr>Repository.PlainHTTP := plainHTTP, Client := Some credStore\<rparr>) tag)"
    by (simp add: Exist_def Let_def)
  have c: "\<forall>e. NewRepository env reference = Inl e \<longrightarrow>
         Exist env reference tag plainHTTP = (False, Some e)"
    by (simp add: Exist_def)
  have d: "\<forall>repo0 e.
         NewRepository env reference = Inr repo0 \<longrightarrow> NewStoreFromDocker env = Inl e \<longrightarrow>
         Exist env reference tag plainHTTP = (False, Some e)"
    by (simp add: Exist_def Let_def)
  have e: "Registry_Exist env r name tag = Exist env (URL r @ ''/'' @ name) tag (Registry.PlainHTTP r)"
    by (simp add: Registry_Exist_def Join2_def)
  from a [of reference plainHTTP] a [of "URL r @ ''/'' @ name" "Registry.PlainHTTP r"]
    Exist_cases [of env reference tag plainHTTP] b c d e
  show ?thesis by simp
qed

theorem Exist_true_iff_fetch_succeeds_witness:
  "NewRepository env_plain_only ''reg.local:5000/app''
     = Inr \<lparr>Reference = ''reg.local:5000/app'', Client = None, PlainHTTP = False\<rparr>
   \<and> NewStoreFromDocker env_plain_only = Inr 0
   \<and> oras_Fetch env_plain_only
        \<lparr>Reference = ''reg.local:5000/app'', Client = Some 0, PlainHTTP = False\<rparr> ''1.0''
       = Some (Error ''connection refused'')
   \<and> Exist env_plain_only ''reg.local:5000/app'' ''1.0'' False
       = (False, Some (Error ''connection refused''))
   \<and> oras_Fetch env_plain_only
        \<lparr>Reference = ''reg.local:5000/app'', Client = Some 0, PlainHTTP = True\<rparr> ''1.0'' = None
   \<and> Exist env_plain_only ''reg.local:5000/app'' ''1.0'' True = (True, None)"
proof -
  have n: "NewRepository env_plain_only ''reg.local:5000/app''
     = Inr \<lparr>Reference = ''reg.local:5000/app'', Client = None, PlainHTTP = False\<rparr>"
    by (simp add: env_plain_only_def)
  have s: "NewStoreFromDocker env_plain_only = Inr 0"
    by (simp add: env_plain_only_def)
  have f: "oras_Fetch env_plain_only
        \<lparr>Reference = ''reg.local:5000/app'', Client = Some 0, PlainHTTP = False\<rparr> ''1.0''
       = Some (Error ''connection refused'')"
    "oras_Fetch env_plain_only
        \<lparr>Reference = ''reg.local:5000/app'', Client = Some 0, PlainHTTP = True\<rparr> ''1.0'' = None"
    by (simp_all add: env_plain_only_def)
  from Exist_true_iff_fetch_succeeds
         [of env_plain_only "''reg.local:5000/app''" "''1.0''" False]
       Exist_true_iff_fetch_succeeds
         [of env_plain_only "''reg.local:5000/app''" "''1.0''" True]
  show ?thesis
    using n s f by simp
qed

section \<open>The existence matrix\<close>

lemma Exists_Nil: "Exists env ref tag [] u = None"
  by (simp add: Exists_def)

lemma Exists_snoc:
  "Exists env ref tag (rs @ [r]) u =
     (if u = URL r then Some (exists_closure env ref tag r) else Exists env ref tag rs u)"
  by (simp add: Exists_def)

lemma Exists_last_probe:
  "Exists env ref tag rs u =
     map_option (exists_closure env ref tag) (find (\<lambda>r. URL r = u) (rev rs))"
  by (induction rs rule: rev_induct) (auto simp: Exists_snoc Exists_Nil)

lemma dom_Exists: "dom (Exists env ref tag rs) = URL ` set rs"
  by (auto simp: dom_def Exists_last_probe find_None_iff)

lemma exists_closure_fst: "exists_closure env ref tag r = fst (Registry_Exist env r ref tag)"
  using Exist_cases [of env "Join2 (URL r) ref" tag "Registry.PlainHTTP r"]
  by (auto simp: exists_closure_def Registry_Exist_def)

lemma find_rev_last:
  "f r \<Longrightarrow> \<forall>y \<in> set ys. \<not> f y \<Longrightarrow> find f (rev (xs @ r # ys)) = Some r"
  by (induction ys rule: rev_induct) auto

lemma URL_regs:
  "URL reg_tls = ''reg.local:5000''" "URL reg_plain = ''reg.local:5000''"
  "URL reg_other = ''other.example''"
  by (simp_all add: reg_tls_def reg_plain_def reg_other_def)

lemma probe_tls:
  "Registry_Exist env_plain_only reg_tls ''app'' ''1.0''
     = (False, Some (Error ''connection refused''))"
  by (simp add: Registry_Exist_def Exist_def env_plain_only_def reg_tls_def Join2_def)

lemma probe_plain: "Registry_Exist env_plain_only reg_plain ''app'' ''1.0'' = (True, None)"
  by (simp add: Registry_Exist_def Exist_def env_plain_only_def reg_plain_def Join2_def)

lemma probe_other:
  "Registry_Exist env_plain_only reg_other ''app'' ''1.0''
     = (False, Some (Error ''connection refused''))"
  by (simp add: Registry_Exist_def Exist_def env_plain_only_def reg_other_def Join2_def)

text \<open>
  C10.  The map returned by \<open>Exists\<close> is keyed by the registries' URLs: its keys are exactly
  the URLs of the input registries, so it has at most as many entries as there are
  registries; the entry under a URL is the coalesced probe of the last registry in the
  list that carries this URL, so of two registries with one URL the later probe stands.
\<close>

theorem Exists_keyed_by_URL:
  "dom (Exists env ref tag registries) = URL ` set registries
   \<and> card (dom (Exists env ref tag registries)) \<le> length registries
   \<and> Exists env ref tag registries u =
       map_option (exists_closure env ref tag) (find (\<lambda>r. URL r = u) (rev registries))
   \<and> Exists env ref tag (xs @ [r1] @ ys @ [r2]) (URL r2) = Some (exists_closure env ref tag r2)"
proof -
  have "card (URL ` set registries) \<le> card (set registries)"
    by (rule card_image_le) simp
  also have "\<dots> \<le> length registries"
    by (rule card_length)
  finally have c: "card (dom (Exists env ref tag registries)) \<le> length registries"
    by (simp add: dom_Exists)
  have l: "Exists env ref tag (xs @ [r1] @ ys @ [r2]) (URL r2) = Some (exists_closure env ref tag r2)"
    using Exists_snoc [of env ref tag "xs @ [r1] @ ys" r2 "URL r2"] by simp
  show ?thesis
    using c l by (simp add: dom_Exists Exists_last_probe)
qed

text \<open>
  C2, as the claim states it, fails when two registries are configured with one URL: the
  probe of the first fails, the probe of the second succeeds, and the entry under the URL
  of the unreachable registry is \<open>true\<close>.
\<close>

theorem Exists_shared_URL_counterexample:
  "snd (Registry_Exist env_plain_only reg_tls ''app'' ''1.0'') = Some (Error ''connection refused'')
   \<and> Exists env_plain_only ''app'' ''1.0'' [reg_tls, reg_plain] (URL reg_tls) = Some True"
  by (simp add: probe_tls probe_plain Exists_def exists_closure_def URL_regs)

text \<open>
  C2, amended.  For a registry whose URL no later registry of the list carries, the entry
  under its URL is the boolean of its own probe, and \<open>false\<close> whenever the probe returned
  an error; the error goes nowhere else, \<open>Exists\<close> having no error result, and the map has
  an entry for the URL of every registry.
\<close>

theorem Exists_coalesces_probe_error:
  assumes "URL r \<notin> URL ` set ys"
  shows "Exists env ref tag (xs @ r # ys) (URL r) = Some (fst (Registry_Exist env r ref tag))
    \<and> (\<forall>e. snd (Registry_Exist env r ref tag) = Some e \<longrightarrow>
          Exists env ref tag (xs @ r # ys) (URL r) = Some False)
    \<and> dom (Exists env ref tag (xs @ r # ys)) = URL ` set (xs @ r # ys)"
proof -
  have "find (\<lambda>x. URL x = URL r) (rev (xs @ r # ys)) = Some r"
    using assms by (intro find_rev_last) (auto simp: image_iff)
  then have v: "Exists env ref tag (xs @ r # ys) (URL r) = Some (fst (Registry_Exist env r ref tag))"
    by (simp add: Exists_last_probe exists_closure_fst)
  have "\<And>e. snd (Registry_Exist env r ref tag) = Some e \<Longrightarrow> fst (Registry_Exist env r ref tag) = False"
    using Exist_cases [of env "Join2 (URL r) ref" tag "Registry.PlainHTTP r"]
    by (auto simp: Registry_Exist_def)
  with v show ?thesis
    by (simp add: dom_Exists)
qed

theorem Exists_coalesces_probe_error_witness:
  "URL reg_other \<notin> URL ` set [reg_plain]
   \<and> snd (Registry_Exist env_plain_only reg_other ''app'' ''1.0'') = Some (Error ''connection refused'')
   \<and> Exists env_plain_only ''app'' ''1.0'' [reg_other, reg_plain] (URL reg_other) = Some False
   \<and> dom (Exists env_plain_only ''app'' ''1.0'' [reg_other, reg_plain]) = {URL reg_other, URL reg_plain}"
proof -
  have h: "URL reg_other \<notin> URL ` set [reg_plain]"
    by (simp add: reg_other_def reg_plain_def)
  show ?thesis
    using h Exists_coalesces_probe_error [OF h, of env_plain_only "''app''" "''1.0''" "[]"]
    by (simp add: probe_other URL_regs)
qed

section \<open>The transport of a push\<close>

text \<open>
  C5.  Whenever \<open>Push\<close> reaches its copy, the source connection is on plain HTTP exactly
  when the source URL contains \<open>localhost\<close> or \<open>0.0.0.0\<close> (what the code recognises as a
  local reference), and the destination connection exactly when the registry's
  \<open>PlainHTTP\<close> flag is set; the copy receives these two connections, and changing the
  registry's flag changes the destination's transport and nothing else.
\<close>

theorem Push_transport:
  assumes "Push_connect env r sourceURL name arch = Inr (source, target, opts)"
  shows "(Repository.PlainHTTP source \<longleftrightarrow>
            Contains sourceURL ''localhost'' \<or> Contains sourceURL ''0.0.0.0'')
    \<and> (Repository.PlainHTTP target \<longleftrightarrow> Registry.PlainHTTP r)
    \<and> Push env r sourceURL name tag arch = oras_Copy env source tag target tag opts
    \<and> Push_connect env (r\<lparr>Registry.PlainHTTP := b\<rparr>) sourceURL name arch
        = Inr (source, target\<lparr>Repository.PlainHTTP := b\<rparr>, opts)"
  using assms
  by (auto simp: Push_connect_def Push_def Let_def split: sum.splits option.splits)

theorem Push_transport_witness:
  "Push_connect env_plain_only reg_plain ''localhost:5000'' ''app'' None
     = Inr (\<lparr>Reference = ''localhost:5000/app'', Client = Some 0, PlainHTTP = True\<rparr>,
            \<lparr>Reference = ''reg.local:5000/app'', Client = Some 0, PlainHTTP = True\<rparr>,
            DefaultCopyOptions)
   \<and> Contains ''localhost:5000'' ''localhost''
   \<and> Registry.PlainHTTP reg_plain
   \<and> Push_connect env_plain_only (reg_plain\<lparr>Registry.PlainHTTP := False\<rparr>)
        ''localhost:5000'' ''app'' None
     = Inr (\<lparr>Reference = ''localhost:5000/app'', Client = Some 0, PlainHTTP = True\<rparr>,
            \<lparr>Reference = ''reg.local:5000/app'', Client = Some 0, PlainHTTP = False\<rparr>,
            DefaultCopyOptions)"
proof -
  have h: "Push_connect env_plain_only reg_plain ''localhost:5000'' ''app'' None
     = Inr (\<lparr>Reference = ''localhost:5000/app'', Client = Some 0, PlainHTTP = True\<rparr>,
            \<lparr>Reference = ''reg.local:5000/app'', Client = Some 0, PlainHTTP = True\<rparr>,
            DefaultCopyOptions)"
    by (simp add: Push_connect_def env_plain_only_def reg_plain_def Join2_def)
  show ?thesis
    using h Push_transport [OF h, of "''1.0''" False]
    by simp
qed

section \<open>A push followed by a fetch\<close>






section \<open>The image stage: what each loop and stage does\<close>

lemma written_append: "written (a @ b) = written a @ written b"
  by (induction a rule: written.induct) simp_all

lemma removed_append: "removed (a @ b) = removed a @ removed b"
  by (induction a rule: removed.induct) simp_all

lemma patched_append: "patched (a @ b) = patched a @ patched b"
  by (induction a rule: patched.induct) simp_all

lemma scanned_append: "scanned (a @ b) = scanned a @ scanned b"
  by (induction a rule: scanned.induct) simp_all

lemmas read_append = written_append removed_append patched_append scanned_append

lemma sanitize_ReplaceAll: "ReplaceAll s ''/'' ''-'' = sanitize s"
  by (simp only: ReplaceAll_slash sanitize_def)

lemma sanitize_append: "sanitize (a @ b) = sanitize a @ sanitize b"
  by (simp add: sanitize_def)

lemma prescan_fileName_eq: "prescan_fileName w cfg i = reportFilePath w cfg i"
  by (simp add: prescan_fileName_def reportFilePath_def ReplaceAll_slash Let_def)

lemma classify_image_None:
  assumes "classify_image w cfg k i s = (None, s')"
  shows "snd (Image_String w i) = None"
    and "patch s' = patch s @ (if needs_patch w i then [(k, i)] else [])"
    and "push s' = push s @ (if needs_patch w i then [] else [(k, i)])"
    and "Patch i \<noteq> Some False \<Longrightarrow> \<exists>r. Scan w (fst (Image_String w i)) = Inr r"
    and "written (trace s') = written (trace s) @ (if Patch i = Some False then [] else [reportFilePath w cfg i])"
    and "scanned (trace s') = scanned (trace s) @ (if Patch i = Some False then [] else [fst (Image_String w i)])"
    and "patched (trace s') = patched (trace s)"
    and "removed (trace s') = removed (trace s)"
  using assms
  by (auto simp: classify_image_def needs_patch_def Let_def read_append prescan_fileName_eq
      split: if_splits prod.splits option.splits sum.splits)

lemma classify_None:
  assumes "classify w cfg k imgs s = (None, s')"
  shows "patch s' = patch s @ filter (\<lambda>p. needs_patch w (snd p)) (enumerate k imgs)
    \<and> push s' = push s @ filter (\<lambda>p. \<not> needs_patch w (snd p)) (enumerate k imgs)
    \<and> written (trace s') = written (trace s)
          @ map (reportFilePath w cfg) (filter (\<lambda>i. Patch i \<noteq> Some False) imgs)
    \<and> scanned (trace s') = scanned (trace s)
          @ map (\<lambda>i. fst (Image_String w i)) (filter (\<lambda>i. Patch i \<noteq> Some False) imgs)
    \<and> patched (trace s') = patched (trace s)
    \<and> removed (trace s') = removed (trace s)
    \<and> (\<forall>i \<in> set imgs. snd (Image_String w i) = None
          \<and> (Patch i \<noteq> Some False \<longrightarrow> (\<exists>r. Scan w (fst (Image_String w i)) = Inr r)))"
  using assms
proof (induction imgs arbitrary: k s)
  case Nil
  then show ?case by simp
next
  case (Cons i imgs)
  from Cons.prems obtain s1 where
    one: "classify_image w cfg k i s = (None, s1)" and
    rest: "classify w cfg (Suc k) imgs s1 = (None, s')"
    by (auto split: prod.splits option.splits)
  note a = classify_image_None [OF one]
  note b = Cons.IH [OF rest]
  show ?case
    using a(1) a(4) b by (simp add: a(2,3,5,6,7,8))
qed

lemma rescan_image_quiet:
  assumes "rescan_image w out pre i tr = (r, tr')"
  shows "patched tr' = patched tr \<and> removed tr' = removed tr"
  using assms
  by (auto simp: rescan_image_def Let_def read_append split: sum.splits)

lemma rescan_image_None:
  assumes "rescan_image w (Reports_Folder cfg) ''postscan-'' i tr = (None, tr')"
  shows "written tr' = written tr @ [reportPostFilePath w cfg i]
    \<and> scanned tr' = scanned tr @ [fst (Image_String w i)]"
  using assms
  by (auto simp: rescan_image_def reportPostFilePath_def ReplaceAll_slash Let_def read_append
      split: sum.splits)

lemma rescan_quiet:
  assumes "rescan w out pre imgs tr = (r, tr')"
  shows "patched tr' = patched tr \<and> removed tr' = removed tr"
  using assms
proof (induction imgs arbitrary: tr)
  case Nil
  then show ?case by simp
next
  case (Cons i imgs)
  obtain r1 tr1 where one: "rescan_image w out pre i tr = (r1, tr1)"
    by (cases "rescan_image w out pre i tr")
  show ?case
  proof (cases r1)
    case None
    with one Cons.prems have "rescan w out pre imgs tr1 = (r, tr')" by simp
    from Cons.IH [OF this] rescan_image_quiet [OF one] show ?thesis by simp
  next
    case (Some e)
    with one Cons.prems have "tr' = tr1" by simp
    with rescan_image_quiet [OF one] show ?thesis by simp
  qed
qed

lemma rescan_None:
  assumes "rescan w (Reports_Folder cfg) ''postscan-'' imgs tr = (None, tr')"
  shows "written tr' = written tr @ map (reportPostFilePath w cfg) imgs
    \<and> scanned tr' = scanned tr @ map (\<lambda>i. fst (Image_String w i)) imgs"
  using assms
proof (induction imgs arbitrary: tr)
  case Nil
  then show ?case by simp
next
  case (Cons i imgs)
  from Cons.prems obtain tr1 where
    one: "rescan_image w (Reports_Folder cfg) ''postscan-'' i tr = (None, tr1)" and
    rest: "rescan w (Reports_Folder cfg) ''postscan-'' imgs tr1 = (None, tr')"
    by (auto split: prod.splits option.splits)
  from Cons.IH [OF rest] rescan_image_None [OF one] show ?case by simp
qed

lemma sign_stage_quiet:
  assumes "sign_stage w cfg ptrs tr = (r, tr')"
  shows "written tr' = written tr \<and> scanned tr' = scanned tr
    \<and> patched tr' = patched tr \<and> removed tr' = removed tr"
  using assms
  by (auto simp: sign_stage_def read_append split: if_splits option.splits)

lemma copacetic_stages_any:
  assumes "copacetic_stages w cfg imgs s rf ofp = (res, tr)"
  shows "removed tr = removed (trace s)
    \<and> (patched tr = patched (trace s) \<or> patched tr = patched (trace s) @ patch s)"
proof (cases "ImportOption_Run w (push s)")
  case (Some e)
  with assms show ?thesis
    by (auto simp: copacetic_stages_def Let_def read_append)
next
  case None
  note imp = this
  let ?tr2 = "(trace s @ [ImportOption_Run_call (push s)]) @ [PatchOption_Run_call (patch s) rf ofp]"
  show ?thesis
  proof (cases "PatchOption_Run w (patch s) rf ofp")
    case (Some e)
    with imp assms show ?thesis
      by (auto simp: copacetic_stages_def Let_def read_append)
  next
    case None
    note pat = this
    obtain r3 tr3 where re: "rescan w (Reports_Folder cfg) ''postscan-'' imgs ?tr2 = (r3, tr3)"
      by (cases "rescan w (Reports_Folder cfg) ''postscan-'' imgs ?tr2")
    note q = rescan_quiet [OF re]
    show ?thesis
    proof (cases r3)
      case (Some e)
      with imp pat re assms have "tr = tr3"
        by (simp add: copacetic_stages_def Let_def)
      with q show ?thesis by (simp add: read_append)
    next
      case None
      with imp pat re assms have "sign_stage w cfg (patch s @ push s) tr3 = (res, tr)"
        by (simp add: copacetic_stages_def Let_def)
      from sign_stage_quiet [OF this] q show ?thesis by (simp add: read_append)
    qed
  qed
qed

lemma copacetic_stages_ok:
  assumes "copacetic_stages w cfg imgs s rf ofp = (Return None, tr)"
  shows "written tr = written (trace s) @ map (reportPostFilePath w cfg) imgs
    \<and> scanned tr = scanned (trace s) @ map (\<lambda>i. fst (Image_String w i)) imgs
    \<and> patched tr = patched (trace s) @ patch s"
proof -
  let ?tr2 = "(trace s @ [ImportOption_Run_call (push s)]) @ [PatchOption_Run_call (patch s) rf ofp]"
  from assms have imp: "ImportOption_Run w (push s) = None"
    by (auto simp: copacetic_stages_def Let_def split: option.splits)
  with assms have pat: "PatchOption_Run w (patch s) rf ofp = None"
    by (auto simp: copacetic_stages_def Let_def split: option.splits)
  obtain r3 tr3 where re: "rescan w (Reports_Folder cfg) ''postscan-'' imgs ?tr2 = (r3, tr3)"
    by (cases "rescan w (Reports_Folder cfg) ''postscan-'' imgs ?tr2")
  with imp pat assms have r3: "r3 = None"
    by (cases r3) (simp_all add: copacetic_stages_def Let_def)
  with imp pat re assms have sg: "sign_stage w cfg (patch s @ push s) tr3 = (Return None, tr)"
    by (simp add: copacetic_stages_def Let_def)
  from rescan_None [OF re [unfolded r3]] rescan_quiet [OF re] sign_stage_quiet [OF sg]
  show ?thesis by (simp add: read_append)
qed

lemma update_fresh: "k \<notin> fst ` set al \<Longrightarrow> AList.update k v al = al @ [(k, v)]"
  by (induction al) auto

lemma artifact_paths_distinct:
  assumes "distinct (map fst ps)"
    and "fst ` set a \<inter> fst ` set ps = {}"
    and "fst ` set b \<inter> fst ` set ps = {}"
    and "fst ` set c \<inter> fst ` set ps = {}"
  shows "artifact_paths w cfg ps (a, b, c) =
     (a @ map (\<lambda>p. (fst p, reportFilePath w cfg (snd p))) ps,
      b @ map (\<lambda>p. (fst p, reportPostFilePath w cfg (snd p))) ps,
      c @ map (\<lambda>p. (fst p, outFilePath w cfg (snd p))) ps)"
  using assms
proof (induction ps arbitrary: a b c)
  case Nil
  show ?case by simp
next
  case (Cons p ps)
  have fa: "fst p \<notin> fst ` set a" and fb: "fst p \<notin> fst ` set b" and fc: "fst p \<notin> fst ` set c"
    using Cons.prems by auto
  have d: "distinct (map fst ps)" and np: "fst p \<notin> fst ` set ps"
    using Cons.prems(1) by auto
  have ia: "fst ` set (a @ [(fst p, reportFilePath w cfg (snd p))]) \<inter> fst ` set ps = {}"
    using Cons.prems(2) np by auto
  have ib: "fst ` set (b @ [(fst p, reportPostFilePath w cfg (snd p))]) \<inter> fst ` set ps = {}"
    using Cons.prems(3) np by auto
  have ic: "fst ` set (c @ [(fst p, outFilePath w cfg (snd p))]) \<inter> fst ` set ps = {}"
    using Cons.prems(4) np by auto
  show ?case
    using Cons.IH [OF d ia ib ic]
    by (simp add: update_fresh [OF fa] update_fresh [OF fb] update_fresh [OF fc])
qed

lemma distinct_split_filter:
  "distinct (map f es) \<Longrightarrow> distinct (map f (filter P es @ filter (\<lambda>x. \<not> P x) es))"
  by (auto simp: distinct_map inj_on_def)

lemma fst_filter_enumerate:
  "j \<in> fst ` set (filter (\<lambda>p. P (snd p)) (enumerate n xs))
     \<longleftrightarrow> n \<le> j \<and> j < n + length xs \<and> P (xs ! (j - n))"
  by (force simp: in_set_enumerate_eq image_iff)

lemma classify_init:
  assumes "classify w cfg 0 imgs init_state = (None, s)"
  shows "patch s = filter (\<lambda>p. needs_patch w (snd p)) (enumerate 0 imgs)"
    and "push s = filter (\<lambda>p. \<not> needs_patch w (snd p)) (enumerate 0 imgs)"
    and "written (trace s) = map (reportFilePath w cfg) (filter (\<lambda>i. Patch i \<noteq> Some False) imgs)"
    and "scanned (trace s) = map (\<lambda>i. fst (Image_String w i)) (filter (\<lambda>i. Patch i \<noteq> Some False) imgs)"
    and "patched (trace s) = []"
    and "removed (trace s) = []"
    and "\<And>i. i \<in> set imgs \<Longrightarrow> snd (Image_String w i) = None"
    and "\<And>i. i \<in> set imgs \<Longrightarrow> Patch i \<noteq> Some False \<Longrightarrow> \<exists>r. Scan w (fst (Image_String w i)) = Inr r"
  using classify_None [OF assms] by (simp_all add: init_state_def)

lemma decision_of_classified:
  assumes "classify w cfg 0 imgs init_state = (None, s)" and "k < length imgs"
  shows "decision_of s k = Some (if needs_patch w (imgs ! k) then PatchThenPush else PushOnly)"
proof -
  have p: "k \<in> fst ` set (patch s) \<longleftrightarrow> needs_patch w (imgs ! k)"
    unfolding classify_init(1) [OF assms(1)]
    using assms(2) fst_filter_enumerate [of k "\<lambda>i. needs_patch w i" 0 imgs] by simp
  have q: "k \<in> fst ` set (push s) \<longleftrightarrow> \<not> needs_patch w (imgs ! k)"
    unfolding classify_init(2) [OF assms(1)]
    using assms(2) fst_filter_enumerate [of k "\<lambda>i. \<not> needs_patch w i" 0 imgs] by simp
  show ?thesis
    by (simp add: decision_of_def p q)
qed

lemma distinct_classified:
  assumes "classify w cfg 0 imgs init_state = (None, s)"
  shows "distinct (map fst (patch s @ push s))"
  unfolding classify_init(1,2) [OF assms]
  by (rule distinct_split_filter) (simp add: enumerate_eq_zip)

lemma paths_classified:
  assumes "classify w cfg 0 imgs init_state = (None, s)"
  shows "artifact_paths w cfg (patch s @ push s) ([], [], []) =
     (map (\<lambda>p. (fst p, reportFilePath w cfg (snd p))) (patch s @ push s),
      map (\<lambda>p. (fst p, reportPostFilePath w cfg (snd p))) (patch s @ push s),
      map (\<lambda>p. (fst p, outFilePath w cfg (snd p))) (patch s @ push s))"
  using artifact_paths_distinct [OF distinct_classified [OF assms], of "[]" "[]" "[]" w cfg]
  by simp

lemma set_classified:
  assumes "classify w cfg 0 imgs init_state = (None, s)"
  shows "set (patch s) \<union> set (push s) = set (enumerate 0 imgs)"
    and "set (patch s) \<inter> set (push s) = {}"
    and "fst ` set (patch s) \<inter> fst ` set (push s) = {}"
    and "snd ` set (patch s @ push s) = set imgs"
proof -
  note c = classify_init(1,2) [OF assms]
  show u: "set (patch s) \<union> set (push s) = set (enumerate 0 imgs)"
    unfolding c by auto
  show "set (patch s) \<inter> set (push s) = {}"
    unfolding c by auto
  show "fst ` set (patch s) \<inter> fst ` set (push s) = {}"
    using distinct_classified [OF assms] by auto
  have "snd ` set (enumerate 0 imgs) = set imgs"
    by (metis list.set_map map_snd_enumerate)
  with u show "snd ` set (patch s @ push s) = set imgs"
    by simp
qed

lemma read_RemoveAll_calls:
  "removed (map (\<lambda>kv. RemoveAll_call (snd kv)) m) = map snd m"
  "written (map (\<lambda>kv. RemoveAll_call (snd kv)) m) = []"
  "scanned (map (\<lambda>kv. RemoveAll_call (snd kv)) m) = []"
  "patched (map (\<lambda>kv. RemoveAll_call (snd kv)) m) = []"
  by (induction m) simp_all

lemma read_cleanup:
  "removed (cleanup cfg a b c) = (if Reports_Clean cfg then map snd a @ map snd b @ map snd c else [])"
  "written (cleanup cfg a b c) = []"
  "scanned (cleanup cfg a b c) = []"
  "patched (cleanup cfg a b c) = []"
  by (simp_all add: cleanup_def read_append read_RemoveAll_calls)

lemma cleanup_only_removes:
  "cleanup cfg a b c = map RemoveAll_call (removed (cleanup cfg a b c))"
  by (simp add: cleanup_def read_append read_RemoveAll_calls)

lemma Program_images_copacetic:
  assumes "Import_Enabled cfg" and "Copacetic_Enabled cfg"
    and "classify w cfg 0 imgs init_state = (None, s)"
    and "copacetic_stages w cfg imgs s
             (map (\<lambda>p. (fst p, reportFilePath w cfg (snd p))) (patch s @ push s))
             (map (\<lambda>p. (fst p, outFilePath w cfg (snd p))) (patch s @ push s)) = (res, tr)"
  shows "Program_images w cfg imgs =
     (res, tr @ cleanup cfg
          (map (\<lambda>p. (fst p, reportFilePath w cfg (snd p))) (patch s @ push s))
          (map (\<lambda>p. (fst p, reportPostFilePath w cfg (snd p))) (patch s @ push s))
          (map (\<lambda>p. (fst p, outFilePath w cfg (snd p))) (patch s @ push s)))"
  unfolding Program_images_def
  apply (simp only: assms(1,2) simp_thms if_True)
  apply (simp only: assms(3))
  apply (simp only: prod.case option.case)
  apply (simp only: paths_classified [OF assms(3)])
  apply (simp only: prod.case)
  apply (simp only: assms(4))
  apply (simp only: prod.case)
  done

lemma Program_images_patched:
  assumes "classify w cfg 0 imgs init_state = (None, s)"
  shows "set (patched (snd (Program_images w cfg imgs))) \<subseteq> set (patch s)"
proof (cases "Import_Enabled cfg \<and> Copacetic_Enabled cfg")
  case True
  obtain res tr where st: "copacetic_stages w cfg imgs s
             (map (\<lambda>p. (fst p, reportFilePath w cfg (snd p))) (patch s @ push s))
             (map (\<lambda>p. (fst p, outFilePath w cfg (snd p))) (patch s @ push s)) = (res, tr)"
    by (cases "copacetic_stages w cfg imgs s
             (map (\<lambda>p. (fst p, reportFilePath w cfg (snd p))) (patch s @ push s))
             (map (\<lambda>p. (fst p, outFilePath w cfg (snd p))) (patch s @ push s))")
  from copacetic_stages_any [OF st] classify_init(5) [OF assms]
  have "set (patched tr) \<subseteq> set (patch s)" by auto
  with True show ?thesis
    using Program_images_copacetic [OF _ _ assms st] by (simp add: read_append read_cleanup)
next
  case False
  obtain r tr where sg: "sign_stage w cfg (enumerate 0 imgs) [ImportOption_Run_call (enumerate 0 imgs)] = (r, tr)"
    by (cases "sign_stage w cfg (enumerate 0 imgs) [ImportOption_Run_call (enumerate 0 imgs)]")
  from sign_stage_quiet [OF sg] have "patched tr = []" by simp
  with False sg show ?thesis
    by (auto simp: Program_images_def Let_def split: option.splits)
qed

section \<open>The classification table\<close>

lemma table_outcome_rows:
  "table_outcome (Some False) a b = PushOnly"
  "p \<noteq> Some False \<Longrightarrow> table_outcome p False b = PushOnly"
  "p \<noteq> Some False \<Longrightarrow> table_outcome p True False = PushOnly"
  "p \<noteq> Some False \<Longrightarrow> table_outcome p True True = PatchThenPush"
  by (simp_all add: table_outcome_def)

text \<open>
  C1.  When the classification loop runs through, the decision for the image at position
  \<open>k\<close> is the one of the table: an image excluded from patching is push-only, whatever
  the scanner would say (only the other images are scanned); any other image was scanned,
  and it is patch-then-push exactly when its OS is supported and its findings contain OS
  packages, push-only otherwise.  A push-only image is in \<open>push\<close> and not in \<open>patch\<close>, and
  no run of the patcher in the whole stage receives it, so no archive is produced for it.
\<close>

theorem classification_follows_table:
  assumes "classify w cfg 0 imgs init_state = (None, s)" and "k < length imgs"
  shows "(Patch (imgs ! k) = Some False \<longrightarrow> decision_of s k = Some PushOnly)
    \<and> (Patch (imgs ! k) \<noteq> Some False \<longrightarrow>
         (\<exists>ref r. Image_String w (imgs ! k) = (ref, None) \<and> Scan w ref = Inr r
            \<and> decision_of s k =
                Some (table_outcome (Patch (imgs ! k))
                        (SupportedOS w (Metadata_OS r)) (ContainsOsPkgs w (Results r)))))
    \<and> (decision_of s k = Some PushOnly \<longrightarrow>
         (k, imgs ! k) \<in> set (push s) \<and> k \<notin> fst ` set (patch s)
         \<and> k \<notin> fst ` set (patched (snd (Program_images w cfg imgs))))
    \<and> (decision_of s k = Some PatchThenPush \<longrightarrow>
         (k, imgs ! k) \<in> set (patch s) \<and> k \<notin> fst ` set (push s))
    \<and> scanned (trace s) =
         map (\<lambda>i. fst (Image_String w i)) (filter (\<lambda>i. Patch i \<noteq> Some False) imgs)"
proof -
  let ?i = "imgs ! k"
  have mem: "?i \<in> set imgs" using assms(2) by simp
  have en: "(k, ?i) \<in> set (enumerate 0 imgs)"
    using assms(2) by (simp add: in_set_enumerate_eq)
  note d = decision_of_classified [OF assms]
  have str: "snd (Image_String w ?i) = None"
    by (rule classify_init(7) [OF assms(1) mem])
  have c1: "Patch ?i = Some False \<longrightarrow> decision_of s k = Some PushOnly"
    by (simp add: d needs_patch_def)
  have c2: "Patch ?i \<noteq> Some False \<longrightarrow>
         (\<exists>ref r. Image_String w ?i = (ref, None) \<and> Scan w ref = Inr r
            \<and> decision_of s k =
                Some (table_outcome (Patch ?i)
                        (SupportedOS w (Metadata_OS r)) (ContainsOsPkgs w (Results r))))"
  proof
    assume np: "Patch ?i \<noteq> Some False"
    from classify_init(8) [OF assms(1) mem np]
    obtain r where r: "Scan w (fst (Image_String w ?i)) = Inr r" by blast
    have "Image_String w ?i = (fst (Image_String w ?i), None)"
      using str by (cases "Image_String w ?i") simp
    moreover have "decision_of s k =
                Some (table_outcome (Patch ?i)
                        (SupportedOS w (Metadata_OS r)) (ContainsOsPkgs w (Results r)))"
      using np r by (simp add: d needs_patch_def table_outcome_def)
    ultimately show "\<exists>ref r. Image_String w ?i = (ref, None) \<and> Scan w ref = Inr r
            \<and> decision_of s k =
                Some (table_outcome (Patch ?i)
                        (SupportedOS w (Metadata_OS r)) (ContainsOsPkgs w (Results r)))"
      using r by blast
  qed
  have c3: "decision_of s k = Some PushOnly \<longrightarrow>
         (k, ?i) \<in> set (push s) \<and> k \<notin> fst ` set (patch s)
         \<and> k \<notin> fst ` set (patched (snd (Program_images w cfg imgs)))"
  proof
    assume po: "decision_of s k = Some PushOnly"
    then have nn: "\<not> needs_patch w ?i" using d by (simp split: if_splits)
    have a: "(k, ?i) \<in> set (push s)"
      using en nn by (simp add: classify_init(2) [OF assms(1)])
    have b: "k \<notin> fst ` set (patch s)"
      using po by (auto simp: decision_of_def split: if_splits)
    have "fst ` set (patched (snd (Program_images w cfg imgs))) \<subseteq> fst ` set (patch s)"
      using Program_images_patched [OF assms(1)] by (rule image_mono)
    with a b show "(k, ?i) \<in> set (push s) \<and> k \<notin> fst ` set (patch s)
         \<and> k \<notin> fst ` set (patched (snd (Program_images w cfg imgs)))"
      by blast
  qed
  have c4: "decision_of s k = Some PatchThenPush \<longrightarrow>
         (k, ?i) \<in> set (patch s) \<and> k \<notin> fst ` set (push s)"
  proof
    assume pp: "decision_of s k = Some PatchThenPush"
    then have nn: "needs_patch w ?i" using d by (simp split: if_splits)
    have a: "(k, ?i) \<in> set (patch s)"
      using en nn by (simp add: classify_init(1) [OF assms(1)])
    have b: "k \<notin> fst ` set (push s)"
      using pp by (auto simp: decision_of_def split: if_splits)
    from a b show "(k, ?i) \<in> set (patch s) \<and> k \<notin> fst ` set (push s)" by blast
  qed
  note c5 = classify_init(4) [OF assms(1)]
  from c1 c2 c3 c4 c5 show ?thesis by blast
qed

lemma classify_imgs3: "classify world0 cfg0 0 imgs3 init_state = (None, state3)"
  by (simp add: imgs3_def state3_def init_state_def classify_image_def prescan_fileName_def
        ReplaceAll_slash world0_def cfg0_def img_app_def img_tool_def img_kept_def Let_def)

lemma decisions_state3:
  "decision_of state3 0 = Some PatchThenPush"
  "decision_of state3 1 = Some PushOnly"
  "decision_of state3 2 = Some PushOnly"
  by (simp_all add: decision_of_def state3_def)

theorem classification_follows_table_witness:
  "classify world0 cfg0 0 imgs3 init_state = (None, state3)
   \<and> 1 < length imgs3
   \<and> Patch (imgs3 ! 1) = Some True
   \<and> Image_String world0 (imgs3 ! 1) = (''tools/tool:2.3'', None)
   \<and> Scan world0 ''tools/tool:2.3'' = Inr \<lparr>Metadata_OS = Some ''alpine'', Results = []\<rparr>
   \<and> decision_of state3 1 = Some PushOnly
   \<and> 1 \<notin> fst ` set (patched (snd (Program_images world0 cfg0 imgs3)))"
proof -
  have l: "1 < length imgs3" by (simp add: imgs3_def)
  have e: "Patch (imgs3 ! 1) = Some True
     \<and> Image_String world0 (imgs3 ! 1) = (''tools/tool:2.3'', None)
     \<and> Scan world0 ''tools/tool:2.3'' = Inr \<lparr>Metadata_OS = Some ''alpine'', Results = []\<rparr>"
    by (simp add: imgs3_def img_tool_def world0_def)
  show ?thesis
    using classification_follows_table [OF classify_imgs3 l] classify_imgs3 l e decisions_state3(2)
    by simp
qed

section \<open>One decision per image\<close>

lemma paths_world0:
  "reportFilePath world0 cfg0 img_app = ''reports/prescan-library-app:1.0.json''"
  "reportFilePath world0 cfg0 img_tool = ''reports/prescan-tools-tool:2.3.json''"
  "reportFilePath world0 cfg0 img_kept = ''reports/prescan-library-kept:3.json''"
  "reportPostFilePath world0 cfg0 img_app = ''reports/postscan-library-app:1.0.json''"
  "reportPostFilePath world0 cfg0 img_tool = ''reports/postscan-tools-tool:2.3.json''"
  "reportPostFilePath world0 cfg0 img_kept = ''reports/postscan-library-kept:3.json''"
  "outFilePath world0 cfg0 img_app = ''tars/library-app:1.0.tar''"
  "outFilePath world0 cfg0 img_tool = ''tars/tools-tool:2.3.tar''"
  "outFilePath world0 cfg0 img_kept = ''tars/library-kept:3.tar''"
  by (simp_all add: reportFilePath_def reportPostFilePath_def outFilePath_def ReplaceAll_slash
        world0_def cfg0_def img_app_def img_tool_def img_kept_def)

lemma written_state3:
  "written (trace state3) =
     [''reports/prescan-library-app:1.0.json'', ''reports/prescan-tools-tool:2.3.json'']"
  by (simp add: state3_def)

text \<open>
  C3, as the claim states it, fails in its last part: the decision does not determine
  which artifacts are populated.  In the batch of three, \<open>tools/tool:2.3\<close> (no findings)
  and \<open>library/kept:3\<close> (excluded) are both push-only, yet a prescan report is written for
  the first and none for the second.
\<close>

theorem decision_does_not_fix_prescan_counterexample:
  "classify world0 cfg0 0 imgs3 init_state = (None, state3)
   \<and> decision_of state3 1 = Some PushOnly
   \<and> decision_of state3 2 = Some PushOnly
   \<and> reportFilePath world0 cfg0 (imgs3 ! 1) \<in> set (written (trace state3))
   \<and> reportFilePath world0 cfg0 (imgs3 ! 2) \<notin> set (written (trace state3))"
proof -
  have a: "reportFilePath world0 cfg0 (imgs3 ! 1) = ''reports/prescan-tools-tool:2.3.json''"
    by (simp add: imgs3_def paths_world0)
  have b: "reportFilePath world0 cfg0 (imgs3 ! 2) = ''reports/prescan-library-kept:3.json''"
    by (simp add: imgs3_def paths_world0)
  show ?thesis
    unfolding a b written_state3
    using classify_imgs3 decisions_state3 by simp
qed

text \<open>
  C3, amended.  When the classification loop runs through, every image of the batch is
  in exactly one of \<open>patch\<close> and \<open>push\<close>: the two collections are disjoint (as pointers and
  as addresses) and together hold exactly the images of the batch, so each image has
  exactly one of the two decisions.  The decision settles whether the patcher receives the
  image (it is only ever run on \<open>patch\<close>).  It does not settle the rest: the three maps get
  a prescan, a postscan and an archive path for every image of either collection, and a
  prescan report is written exactly for the images that are not excluded from patching.
\<close>

theorem classification_partitions:
  assumes "classify w cfg 0 imgs init_state = (None, s)"
  shows "set (patch s) \<inter> set (push s) = {}
    \<and> fst ` set (patch s) \<inter> fst ` set (push s) = {}
    \<and> set (patch s) \<union> set (push s) = set (enumerate 0 imgs)
    \<and> (\<forall>k < length imgs. decision_of s k = Some PushOnly \<or> decision_of s k = Some PatchThenPush)
    \<and> artifact_paths w cfg (patch s @ push s) ([], [], []) =
         (map (\<lambda>p. (fst p, reportFilePath w cfg (snd p))) (patch s @ push s),
          map (\<lambda>p. (fst p, reportPostFilePath w cfg (snd p))) (patch s @ push s),
          map (\<lambda>p. (fst p, outFilePath w cfg (snd p))) (patch s @ push s))
    \<and> written (trace s) = map (reportFilePath w cfg) (filter (\<lambda>i. Patch i \<noteq> Some False) imgs)
    \<and> set (patched (snd (Program_images w cfg imgs))) \<subseteq> set (patch s)"
proof -
  have d: "\<forall>k < length imgs. decision_of s k = Some PushOnly \<or> decision_of s k = Some PatchThenPush"
    using decision_of_classified [OF assms] by simp
  show ?thesis
    using set_classified(1,2,3) [OF assms] d paths_classified [OF assms]
      classify_init(3) [OF assms] Program_images_patched [OF assms]
    by blast
qed

theorem classification_partitions_witness:
  "classify world0 cfg0 0 imgs3 init_state = (None, state3)
   \<and> set (patch state3) \<union> set (push state3) = {(0, img_app), (1, img_tool), (2, img_kept)}
   \<and> set (patch state3) \<inter> set (push state3) = {}
   \<and> written (trace state3) = map (reportFilePath world0 cfg0) [img_app, img_tool]
   \<and> artifact_paths world0 cfg0 (patch state3 @ push state3) ([], [], []) =
         ([(0, ''reports/prescan-library-app:1.0.json''),
           (1, ''reports/prescan-tools-tool:2.3.json''),
           (2, ''reports/prescan-library-kept:3.json'')],
          [(0, ''reports/postscan-library-app:1.0.json''),
           (1, ''reports/postscan-tools-tool:2.3.json''),
           (2, ''reports/postscan-library-kept:3.json'')],
          [(0, ''tars/library-app:1.0.tar''),
           (1, ''tars/tools-tool:2.3.tar''),
           (2, ''tars/library-kept:3.tar'')])"
proof -
  have f: "filter (\<lambda>i. Patch i \<noteq> Some False) imgs3 = [img_app, img_tool]"
    by (simp add: imgs3_def img_app_def img_tool_def img_kept_def)
  have e: "set (enumerate 0 imgs3) = {(0, img_app), (1, img_tool), (2, img_kept)}"
    by (simp add: imgs3_def numeral_2_eq_2)
  have p: "patch state3 @ push state3 = [(0, img_app), (1, img_tool), (2, img_kept)]"
    by (simp add: state3_def)
  show ?thesis
    using classification_partitions [OF classify_imgs3] classify_imgs3
    by (simp add: f e p paths_world0)
qed

section \<open>The scan after patching\<close>







lemma cfg0_flags:
  "Import_Enabled cfg0" "Copacetic_Enabled cfg0" "Reports_Clean cfg0" "Tars_Clean cfg0"
  by (simp_all add: cfg0_def)






section \<open>The cleanup\<close>

lemma paths_ignore_RemoveAll:
  "reportFilePath (w\<lparr>RemoveAll := f\<rparr>) cfg i = reportFilePath w cfg i"
  "reportPostFilePath (w\<lparr>RemoveAll := f\<rparr>) cfg i = reportPostFilePath w cfg i"
  "outFilePath (w\<lparr>RemoveAll := f\<rparr>) cfg i = outFilePath w cfg i"
  by (simp_all add: reportFilePath_def reportPostFilePath_def outFilePath_def)

lemma classify_image_ignores_RemoveAll:
  "classify_image (w\<lparr>RemoveAll := f\<rparr>) cfg k i s = classify_image w cfg k i s"
  by (simp add: classify_image_def prescan_fileName_def Let_def
        split: prod.split option.split sum.split)

lemma classify_ignores_RemoveAll:
  "classify (w\<lparr>RemoveAll := f\<rparr>) cfg k imgs s = classify w cfg k imgs s"
  by (induction imgs arbitrary: k s)
     (simp_all add: classify_image_ignores_RemoveAll split: prod.split option.split)

lemma artifact_paths_ignores_RemoveAll:
  "artifact_paths (w\<lparr>RemoveAll := f\<rparr>) cfg ps m = artifact_paths w cfg ps m"
proof (induction ps arbitrary: m)
  case Nil
  show ?case by simp
next
  case (Cons p ps)
  obtain a b c where m: "m = (a, b, c)" by (cases m) auto
  show ?case unfolding m by (simp add: paths_ignore_RemoveAll Cons.IH)
qed

lemma rescan_image_ignores_RemoveAll:
  "rescan_image (w\<lparr>RemoveAll := f\<rparr>) out pre i tr = rescan_image w out pre i tr"
  by (simp add: rescan_image_def Let_def split: sum.split)

lemma rescan_ignores_RemoveAll:
  "rescan (w\<lparr>RemoveAll := f\<rparr>) out pre imgs tr = rescan w out pre imgs tr"
  by (induction imgs arbitrary: tr)
     (simp_all add: rescan_image_ignores_RemoveAll split: prod.split option.split)

lemma sign_stage_ignores_RemoveAll:
  "sign_stage (w\<lparr>RemoveAll := f\<rparr>) cfg ptrs tr = sign_stage w cfg ptrs tr"
  by (simp add: sign_stage_def split: option.split)

lemma copacetic_stages_ignores_RemoveAll:
  "copacetic_stages (w\<lparr>RemoveAll := f\<rparr>) cfg imgs s a b = copacetic_stages w cfg imgs s a b"
  by (simp add: copacetic_stages_def rescan_ignores_RemoveAll sign_stage_ignores_RemoveAll
        Let_def split: prod.split option.split)

lemma Program_images_ignores_RemoveAll:
  "Program_images (w\<lparr>RemoveAll := f\<rparr>) cfg imgs = Program_images w cfg imgs"
  by (simp add: Program_images_def classify_ignores_RemoveAll artifact_paths_ignores_RemoveAll
        copacetic_stages_ignores_RemoveAll sign_stage_ignores_RemoveAll Let_def
        split: prod.split option.split)

text \<open>
  C6, amended.  Once the classification loop has run through and the paths are derived,
  the cleanup runs when the stage is left, whatever the later stages do (return an error,
  panic or succeed): with the reports flag set, \<open>os.RemoveAll\<close> is called on the prescan
  and on the postscan path of every image of the batch; the removals are the last events
  of the run; and what \<open>os.RemoveAll\<close> returns changes neither the outcome nor the events.
\<close>

theorem cleanup_runs_after_classification:
  assumes "Import_Enabled cfg" and "Copacetic_Enabled cfg"
    and "classify w cfg 0 imgs init_state = (None, s)"
    and "Reports_Clean cfg"
  shows "(\<forall>i \<in> set imgs.
            reportFilePath w cfg i \<in> set (removed (snd (Program_images w cfg imgs)))
            \<and> reportPostFilePath w cfg i \<in> set (removed (snd (Program_images w cfg imgs))))
    \<and> (\<exists>tr0. snd (Program_images w cfg imgs)
                = tr0 @ map RemoveAll_call (removed (snd (Program_images w cfg imgs)))
              \<and> removed tr0 = [])
    \<and> Program_images (w\<lparr>RemoveAll := f\<rparr>) cfg imgs = Program_images w cfg imgs"
proof -
  let ?ps = "patch s @ push s"
  let ?rf = "map (\<lambda>p. (fst p, reportFilePath w cfg (snd p))) ?ps"
  let ?rpf = "map (\<lambda>p. (fst p, reportPostFilePath w cfg (snd p))) ?ps"
  let ?of = "map (\<lambda>p. (fst p, outFilePath w cfg (snd p))) ?ps"
  obtain res tr0 where st: "copacetic_stages w cfg imgs s ?rf ?of = (res, tr0)"
    by (cases "copacetic_stages w cfg imgs s ?rf ?of")
  note run = Program_images_copacetic [OF assms(1,2,3) st]
  have q: "removed tr0 = []"
    using copacetic_stages_any [OF st] classify_init(6) [OF assms(3)] by simp
  have rm: "removed (snd (Program_images w cfg imgs)) = removed (cleanup cfg ?rf ?rpf ?of)"
    by (simp add: run read_append q)
  have sp: "snd ` set ?ps = set imgs"
    by (rule set_classified(4) [OF assms(3)])
  have a: "\<forall>i \<in> set imgs.
            reportFilePath w cfg i \<in> set (removed (snd (Program_images w cfg imgs)))
            \<and> reportPostFilePath w cfg i \<in> set (removed (snd (Program_images w cfg imgs)))"
  proof
    fix i assume "i \<in> set imgs"
    then obtain p where p: "p \<in> set ?ps" and i: "i = snd p"
      using sp by (metis imageE)
    have m: "removed (cleanup cfg ?rf ?rpf ?of) =
        map (\<lambda>p. reportFilePath w cfg (snd p)) ?ps
        @ map (\<lambda>p. reportPostFilePath w cfg (snd p)) ?ps
        @ map (\<lambda>p. outFilePath w cfg (snd p)) ?ps"
      using assms(4) by (simp add: read_cleanup(1) comp_def)
    have "reportFilePath w cfg (snd p) \<in> set (map (\<lambda>p. reportFilePath w cfg (snd p)) ?ps)"
      using p by (simp only: set_map) (rule imageI)
    moreover have "reportPostFilePath w cfg (snd p)
        \<in> set (map (\<lambda>p. reportPostFilePath w cfg (snd p)) ?ps)"
      using p by (simp only: set_map) (rule imageI)
    ultimately show "reportFilePath w cfg i \<in> set (removed (snd (Program_images w cfg imgs)))
            \<and> reportPostFilePath w cfg i \<in> set (removed (snd (Program_images w cfg imgs)))"
      unfolding rm i m by (simp only: set_append Un_iff simp_thms)
  qed
  have b: "snd (Program_images w cfg imgs)
             = tr0 @ map RemoveAll_call (removed (snd (Program_images w cfg imgs)))"
    unfolding rm using cleanup_only_removes [of cfg ?rf ?rpf ?of] by (simp add: run)
  from a b q show ?thesis
    using Program_images_ignores_RemoveAll by blast
qed

text \<open>
  The archive paths are removed under the same flag as the reports: the second condition
  of the deferred function reads \<open>Output.Reports.Clean\<close> again, and no flag of the archive
  folder is read anywhere.
\<close>

lemma cleanup_reads_one_flag:
  "cleanup (cfg\<lparr>Tars_Clean := b\<rparr>) rf rpf ofp = cleanup cfg rf rpf ofp"
  "Reports_Clean cfg \<Longrightarrow> removed (cleanup cfg rf rpf ofp) = map snd rf @ map snd rpf @ map snd ofp"
  "\<not> Reports_Clean cfg \<Longrightarrow> cleanup cfg rf rpf ofp = []"
  by (simp_all add: cleanup_def read_append read_RemoveAll_calls)

lemma run_imgs_fail:
  "Program_images world0 cfg0 imgs_fail =
     (Return (Some (Error ''scan failed'')),
      [Scan_call ''library/app:1.0'',
       WriteFile_call ''reports/prescan-library-app:1.0.json'' ''{}'',
       Scan_call ''library/bad:0''])"
  by (simp add: Program_images_def imgs_fail_def init_state_def classify_image_def
        prescan_fileName_def ReplaceAll_slash world0_def cfg0_def img_app_def img_bad_def Let_def)

text \<open>
  C6, as the claim states it, fails when the batch fails before the cleanup is deferred:
  the first image is scanned and its prescan report written, the scan of the second
  fails, and the stage returns the error without removing anything, both flags being set.
\<close>

theorem no_cleanup_when_scan_fails_counterexample:
  "Reports_Clean cfg0 \<and> Tars_Clean cfg0
   \<and> fst (Program_images world0 cfg0 imgs_fail) = Return (Some (Error ''scan failed''))
   \<and> written (snd (Program_images world0 cfg0 imgs_fail)) = [''reports/prescan-library-app:1.0.json'']
   \<and> removed (snd (Program_images world0 cfg0 imgs_fail)) = []"
  by (simp add: run_imgs_fail cfg0_flags)

lemma classify_imgs3_patch_fails:
  "classify world_patch_fails cfg0 0 imgs3 init_state = (None, state3)"
  by (simp add: imgs3_def state3_def init_state_def classify_image_def prescan_fileName_def
        ReplaceAll_slash world_patch_fails_def world0_def cfg0_def
        img_app_def img_tool_def img_kept_def Let_def)

lemma run_imgs3_patch_fails:
  "fst (Program_images world_patch_fails cfg0 imgs3) = Return (Some (Error ''patch failed''))"
proof -
  have "ImportOption_Run world_patch_fails (push state3) = None"
    and "PatchOption_Run world_patch_fails (patch state3) a b = Some (Error ''patch failed'')" for a b
    by (simp_all add: world_patch_fails_def world0_def)
  then have st: "copacetic_stages world_patch_fails cfg0 imgs3 state3 a b
      = (Return (Some (Error ''patch failed'')),
         (trace state3 @ [ImportOption_Run_call (push state3)])
           @ [PatchOption_Run_call (patch state3) a b])" for a b
    by (simp add: copacetic_stages_def Let_def)
  show ?thesis
    using Program_images_copacetic [OF cfg0_flags(1,2) classify_imgs3_patch_fails st]
    by simp
qed

theorem cleanup_runs_after_classification_witness:
  "Import_Enabled cfg0 \<and> Copacetic_Enabled cfg0 \<and> Reports_Clean cfg0
   \<and> classify world_patch_fails cfg0 0 imgs3 init_state = (None, state3)
   \<and> fst (Program_images world_patch_fails cfg0 imgs3) = Return (Some (Error ''patch failed''))
   \<and> img_app \<in> set imgs3
   \<and> reportFilePath world_patch_fails cfg0 img_app = ''reports/prescan-library-app:1.0.json''
   \<and> ''reports/prescan-library-app:1.0.json''
        \<in> set (removed (snd (Program_images world_patch_fails cfg0 imgs3)))"
proof -
  have m: "img_app \<in> set imgs3"
    by (simp add: imgs3_def)
  have p: "reportFilePath world_patch_fails cfg0 img_app = ''reports/prescan-library-app:1.0.json''"
    by (simp add: reportFilePath_def ReplaceAll_slash world_patch_fails_def world0_def cfg0_def
          img_app_def)
  from cleanup_runs_after_classification
         [OF cfg0_flags(1,2) classify_imgs3_patch_fails cfg0_flags(3)] m
  have "reportFilePath world_patch_fails cfg0 img_app
          \<in> set (removed (snd (Program_images world_patch_fails cfg0 imgs3)))"
    by blast
  then show ?thesis
    unfolding p
    using cfg0_flags(1,2,3) classify_imgs3_patch_fails run_imgs3_patch_fails m by simp
qed

section \<open>The artifact paths\<close>

lemma sanitize_no_slash: "CHR ''/'' \<notin> set (sanitize x)"
  by (auto simp: sanitize_def)

lemma sanitize_id: "CHR ''/'' \<notin> set x \<Longrightarrow> sanitize x = x"
  by (induction x) (auto simp: sanitize_def)

text \<open>
  C8.  For every image the three maps hold, under the image's pointer, the paths derived
  from its name \<open>N\<close> and tag \<open>T\<close> alone: \<open>prescan-N:T.json\<close> and \<open>postscan-N:T.json\<close> joined
  to the reports folder and \<open>N:T.tar\<close> joined to the archive folder, the file name with
  every \<open>/\<close> replaced by \<open>-\<close> (in the tag as well, which has none in a well-formed
  reference); the path the classification loop writes its report to is the prescan path.
\<close>

theorem artifact_paths_derived:
  assumes "distinct (map fst ps)" and "p \<in> set ps"
    and "artifact_paths w cfg ps ([], [], []) = (reportFilePaths, reportPostFilePaths, outFilePaths)"
  shows "map_of reportFilePaths (fst p) =
           Some (filepath_Join w (Reports_Folder cfg)
                   (''prescan-'' @ sanitize (fst (Image_ImageName w (snd p))) @ '':''
                      @ sanitize (Tag (snd p)) @ ''.json''))
    \<and> map_of reportPostFilePaths (fst p) =
           Some (filepath_Join w (Reports_Folder cfg)
                   (''postscan-'' @ sanitize (fst (Image_ImageName w (snd p))) @ '':''
                      @ sanitize (Tag (snd p)) @ ''.json''))
    \<and> map_of outFilePaths (fst p) =
           Some (filepath_Join w (Tars_Folder cfg)
                   (sanitize (fst (Image_ImageName w (snd p))) @ '':''
                      @ sanitize (Tag (snd p)) @ ''.tar''))
    \<and> prescan_fileName w cfg (snd p) = reportFilePath w cfg (snd p)
    \<and> map_of reportFilePaths (fst p) = Some (reportFilePath w cfg (snd p))
    \<and> map_of reportPostFilePaths (fst p) = Some (reportPostFilePath w cfg (snd p))
    \<and> map_of outFilePaths (fst p) = Some (outFilePath w cfg (snd p))
    \<and> CHR ''/'' \<notin> set (sanitize (fst (Image_ImageName w (snd p))) @ '':''
                      @ sanitize (Tag (snd p)))
    \<and> (CHR ''/'' \<notin> set (Tag (snd p)) \<longrightarrow> sanitize (Tag (snd p)) = Tag (snd p))"
proof -
  have e: "reportFilePaths = map (\<lambda>p. (fst p, reportFilePath w cfg (snd p))) ps"
    "reportPostFilePaths = map (\<lambda>p. (fst p, reportPostFilePath w cfg (snd p))) ps"
    "outFilePaths = map (\<lambda>p. (fst p, outFilePath w cfg (snd p))) ps"
    using artifact_paths_distinct [OF assms(1), of "[]" "[]" "[]" w cfg] assms(3) by simp_all
  have d: "distinct (map fst (map (\<lambda>p. (fst p, g (snd p))) ps))" for g :: "Image \<Rightarrow> string"
    using assms(1) by (simp add: comp_def)
  have l: "map_of (map (\<lambda>p. (fst p, g (snd p))) ps) (fst p) = Some (g (snd p))"
    for g :: "Image \<Rightarrow> string"
    using assms(2) by (subst map_of_eq_Some_iff [OF d]) force
  have f: "reportFilePath w cfg (snd p) = filepath_Join w (Reports_Folder cfg)
                   (''prescan-'' @ sanitize (fst (Image_ImageName w (snd p))) @ '':''
                      @ sanitize (Tag (snd p)) @ ''.json'')"
    "reportPostFilePath w cfg (snd p) = filepath_Join w (Reports_Folder cfg)
                   (''postscan-'' @ sanitize (fst (Image_ImageName w (snd p))) @ '':''
                      @ sanitize (Tag (snd p)) @ ''.json'')"
    "outFilePath w cfg (snd p) = filepath_Join w (Tars_Folder cfg)
                   (sanitize (fst (Image_ImageName w (snd p))) @ '':''
                      @ sanitize (Tag (snd p)) @ ''.tar'')"
    by (simp_all add: reportFilePath_def reportPostFilePath_def outFilePath_def
          ReplaceAll_slash sanitize_def)
  have n: "CHR ''/'' \<notin> set (sanitize (fst (Image_ImageName w (snd p))) @ '':''
                      @ sanitize (Tag (snd p)))"
    using sanitize_no_slash by simp
  show ?thesis
    unfolding e l f [symmetric]
    using n sanitize_id prescan_fileName_eq by blast
qed

theorem artifact_paths_derived_witness:
  "distinct (map fst [(0, img_app)]) \<and> (0, img_app) \<in> set [(0, img_app)]
   \<and> artifact_paths world0 cfg0 [(0, img_app)] ([], [], []) =
       ([(0, ''reports/prescan-library-app:1.0.json'')],
        [(0, ''reports/postscan-library-app:1.0.json'')],
        [(0, ''tars/library-app:1.0.tar'')])
   \<and> fst (Image_ImageName world0 img_app) = ''library/app''
   \<and> Tag img_app = ''1.0''
   \<and> filepath_Join world0 (Reports_Folder cfg0)
         (''prescan-'' @ sanitize (fst (Image_ImageName world0 img_app)) @ '':''
            @ sanitize (Tag img_app) @ ''.json'')
       = ''reports/prescan-library-app:1.0.json''"
proof -
  have d: "distinct (map fst [(0::nat, img_app)])" by simp
  have m: "(0, img_app) \<in> set [(0::nat, img_app)]" by simp
  have a: "artifact_paths world0 cfg0 [(0, img_app)] ([], [], []) =
       ([(0, ''reports/prescan-library-app:1.0.json'')],
        [(0, ''reports/postscan-library-app:1.0.json'')],
        [(0, ''tars/library-app:1.0.tar'')])"
    by (simp add: paths_world0)
  have v: "fst (Image_ImageName world0 img_app) = ''library/app'' \<and> Tag img_app = ''1.0''"
    by (simp add: world0_def img_app_def)
  from artifact_paths_derived [OF d m a]
  have "map_of [(0::nat, ''reports/prescan-library-app:1.0.json'')] (fst (0::nat, img_app)) =
           Some (filepath_Join world0 (Reports_Folder cfg0)
                   (''prescan-'' @ sanitize (fst (Image_ImageName world0 (snd (0::nat, img_app)))) @ '':''
                      @ sanitize (Tag (snd (0::nat, img_app))) @ ''.json''))"
    by blast
  then show ?thesis
    using d m a v by simp
qed

end
